theory Spec2Isabelle
  imports Main "HOL-Library.AList"
begin

section \<open>Python strings and integers\<close>

text \<open>
  A Python \<open>str\<close> is modelled as a \<open>string\<close>; a character stands for the code point
  of the same number (U+0000 to U+00FF). \<open>isspace\<close> lists the code points of that range
  for which \<open>str.isspace\<close> holds; they are what \<open>str.strip()\<close> removes at both ends.
\<close>

definition isspace :: "char \<Rightarrow> bool" where
  "isspace c \<longleftrightarrow> c \<in> {CHR 0x09, CHR 0x0A, CHR 0x0B, CHR 0x0C, CHR 0x0D,
                     CHR 0x1C, CHR 0x1D, CHR 0x1E, CHR 0x1F, CHR 0x20, CHR 0x85, CHR 0xA0}"

definition strip :: "string \<Rightarrow> string" where
  "strip s = rev (dropWhile isspace (rev (dropWhile isspace s)))"

text \<open>\<open>s.split(sep)\<close>: every occurrence of the separator cuts; the result is never empty.\<close>

fun str_split :: "char \<Rightarrow> string \<Rightarrow> string list" where
  "str_split sep [] = [[]]"
| "str_split sep (c # cs) =
     (if c = sep then [] # str_split sep cs
      else (case str_split sep cs of [] \<Rightarrow> [[c]] | p # ps \<Rightarrow> (c # p) # ps))"

text \<open>\<open>s.split(sep, 1)\<close>: at most one cut, at the first occurrence of the separator.\<close>

definition str_split1 :: "char \<Rightarrow> string \<Rightarrow> string list" where
  "str_split1 sep s =
     (case dropWhile (\<lambda>c. c \<noteq> sep) s of
        [] \<Rightarrow> [s]
      | _ # rest \<Rightarrow> [takeWhile (\<lambda>c. c \<noteq> sep) s, rest])"

definition isdigit :: "char \<Rightarrow> bool" where
  "isdigit c \<longleftrightarrow> (48::nat) \<le> of_char c \<and> of_char c \<le> (57::nat)"

definition digit_value :: "char \<Rightarrow> nat" where
  "digit_value c = of_char c - 48"

definition digit_char :: "nat \<Rightarrow> char" where
  "digit_char n = char_of (48 + n)"

text \<open>
  \<open>int(s)\<close> in base 10: surrounding whitespace is dropped, then an optional sign, then
  decimal digits in which single underscores may stand between two digits. \<open>None\<close> is
  the \<open>ValueError\<close> of a string that is no such literal, or of one with more digits than
  the interpreter allows: \<open>sys.int_max_str_digits\<close>, 4300 unless it is set otherwise,
  counting every digit (leading zeros too) and neither the sign nor the underscores.
  The whitespace \<open>int\<close> drops is narrower than that of \<open>str.strip\<close>: the code points
  U+001C to U+001F are not part of it.
\<close>

definition int_isspace :: "char \<Rightarrow> bool" where
  "int_isspace c \<longleftrightarrow> c \<in> {CHR 0x09, CHR 0x0A, CHR 0x0B, CHR 0x0C, CHR 0x0D,
                         CHR 0x20, CHR 0x85, CHR 0xA0}"

definition int_strip :: "string \<Rightarrow> string" where
  "int_strip s = rev (dropWhile int_isspace (rev (dropWhile int_isspace s)))"

definition int_max_str_digits :: nat where
  "int_max_str_digits = 4300"

fun int_digits :: "nat \<Rightarrow> string \<Rightarrow> nat option" where
  "int_digits acc [] = Some acc"
| "int_digits acc [c] = (if isdigit c then Some (10 * acc + digit_value c) else None)"
| "int_digits acc (c # d # ds) =
     (if isdigit c then int_digits (10 * acc + digit_value c) (d # ds)
      else if c = CHR ''_'' \<and> isdigit d then int_digits (10 * acc + digit_value d) ds
      else None)"

definition int_magnitude :: "string \<Rightarrow> nat option" where
  "int_magnitude s =
     (if int_max_str_digits < length (filter isdigit s) then None
      else
        (case s of [] \<Rightarrow> None
         | c # cs \<Rightarrow> if isdigit c then int_digits (digit_value c) cs else None))"

definition py_int :: "string \<Rightarrow> int option" where
  "py_int s =
     (case int_strip s of
        [] \<Rightarrow> None
      | c # cs \<Rightarrow>
          if c = CHR ''-'' then map_option (\<lambda>n. - int n) (int_magnitude cs)
          else if c = CHR ''+'' then map_option int (int_magnitude cs)
          else map_option int (int_magnitude (c # cs)))"

text \<open>
  \<open>str(n)\<close> of an integer, as an f-string prints it. Printing has the same bound on
  digits as \<open>int\<close>; it is left out here, a coordinate on a map and its neighbours
  being far below it.
\<close>

function str_nat :: "nat \<Rightarrow> string" where
  "str_nat n = (if n < 10 then [digit_char n] else str_nat (n div 10) @ [digit_char (n mod 10)])"
  by pat_completeness auto
termination
  by (relation "measure id") auto

definition str_int :: "int \<Rightarrow> string" where
  "str_int i = (if i < 0 then CHR ''-'' # str_nat (nat (- i)) else str_nat (nat i))"

text \<open>\<open>str\<close> of a pair of integers: \<open>(x, y)\<close>.\<close>

definition str_tuple :: "int \<times> int \<Rightarrow> string" where
  "str_tuple p = ''('' @ str_int (fst p) @ '', '' @ str_int (snd p) @ '')''"

text \<open>\<open>t.index(x)\<close>; \<open>None\<close> is the \<open>ValueError\<close> of an absent element.\<close>

fun tuple_index :: "'a list \<Rightarrow> 'a \<Rightarrow> nat option" where
  "tuple_index [] x = None"
| "tuple_index (y # ys) x = (if y = x then Some 0 else map_option Suc (tuple_index ys x))"

text \<open>\<open>v in range(stop)\<close> for an integer \<open>v\<close>.\<close>

definition in_range :: "int \<Rightarrow> int \<Rightarrow> bool" where
  "in_range v stop \<longleftrightarrow> 0 \<le> v \<and> v < stop"

section \<open>The robot\<close>

definition DIRECTIONS :: "string list" where
  "DIRECTIONS = [''NORTH'', ''EAST'', ''SOUTH'', ''WEST'']"

definition STEP_BY_DIRECTION :: "(string \<times> (int \<times> int)) list" where
  "STEP_BY_DIRECTION =
     [(''NORTH'', (0, 1)), (''SOUTH'', (0, - 1)), (''EAST'', (1, 0)), (''WEST'', (- 1, 0))]"

definition MAP_SIZE :: "int \<times> int" where
  "MAP_SIZE = (5, 5)"

datatype exn =
    InvalidOperationException string
  | ValueError
  | TypeError
  | KeyError
  | SystemExit int

text \<open>The bound methods stored in \<open>command_map\<close>.\<close>

datatype handler = Place | Turn | Move | Report | Terminate

type_synonym kwargs = "(string \<times> string) list"

text \<open>
  An entry of \<open>command_map\<close>: the method, and the dictionary under the key
  \<open>addtional_parameters\<close> when the entry has one.
\<close>

record executor =
  func :: handler
  addtional_parameters :: "kwargs option"

text \<open>
  The fields of a \<open>Robot\<close>. \<open>map_ranges\<close> is the field \<open>map\<close>, a pair of ranges, each
  given by its stop value. \<open>pos\<close> and \<open>direction\<close> are \<open>None\<close> until set.
\<close>

record robot =
  placed :: bool
  map_size_x :: int
  map_size_y :: int
  map_ranges :: "int \<times> int"
  pos :: "(int \<times> int) option"
  direction :: "string option"
  command_map :: "(string \<times> executor) list"

text \<open>
  What a call leaves behind: the robot after it, the lines it printed, and the exception
  it raised, if any.
\<close>

record outcome =
  after :: robot
  stdout :: "string list"
  raised :: "exn option"

definition returns :: "robot \<Rightarrow> outcome" where
  "returns self = \<lparr>after = self, stdout = [], raised = None\<rparr>"

definition raises :: "robot \<Rightarrow> exn \<Rightarrow> outcome" where
  "raises self e = \<lparr>after = self, stdout = [], raised = Some e\<rparr>"

definition Robot :: "int \<times> int \<Rightarrow> robot" where
  "Robot map_size =
     \<lparr>placed = False,
      map_size_x = fst map_size,
      map_size_y = snd map_size,
      map_ranges = (fst map_size, snd map_size),
      pos = None,
      direction = None,
      command_map =
        [(''PLACE'', \<lparr>func = Place, addtional_parameters = None\<rparr>),
         (''LEFT'', \<lparr>func = Turn, addtional_parameters = Some [(''direction'', ''LEFT'')]\<rparr>),
         (''RIGHT'', \<lparr>func = Turn, addtional_parameters = Some [(''direction'', ''RIGHT'')]\<rparr>),
         (''MOVE'', \<lparr>func = Move, addtional_parameters = None\<rparr>),
         (''REPORT'', \<lparr>func = Report, addtional_parameters = None\<rparr>),
         (''EXIT'', \<lparr>func = Terminate, addtional_parameters = None\<rparr>)]\<rparr>"

definition is_valid_pos :: "robot \<Rightarrow> int \<times> int \<Rightarrow> bool" where
  "is_valid_pos self p \<longleftrightarrow>
     in_range (fst p) (fst (map_ranges self)) \<and> in_range (snd p) (snd (map_ranges self))"

definition is_valid_direction :: "string \<Rightarrow> bool" where
  "is_valid_direction d \<longleftrightarrow> d \<in> set DIRECTIONS"

definition not_placed_message :: string where
  "not_placed_message = ''A robot must be placed before any other command can be executed. Abort.''"

definition expect_message :: "string \<Rightarrow> string" where
  "expect_message got = ''Expect command to be \"PLACE <X>, <Y>, <Facing>\", got \"'' @ got @ ''\"''"

definition invalid_position_message :: "robot \<Rightarrow> string" where
  "invalid_position_message self =
     ''Invalid position in the map, should be within 0 to '' @ str_int (map_size_x self)
       @ '' in X and 0 to '' @ str_int (map_size_y self) @ '' in Y.''"

definition invalid_direction_message :: string where
  "invalid_direction_message =
     ''Invalid direction, should be one of ('NORTH', 'EAST', 'SOUTH', 'WEST')''"

definition destination_message :: "int \<times> int \<Rightarrow> string" where
  "destination_message p = ''Destination '' @ str_tuple p @ '' cannot be reached.''"

definition turning_message :: "string \<Rightarrow> string" where
  "turning_message t = ''Turning direction should be either LEFT or RIGHT, got '' @ t"

text \<open>The decorator: the wrapped method runs only on a placed robot.\<close>

definition should_have_been_placed ::
  "(robot \<Rightarrow> kwargs \<Rightarrow> outcome) \<Rightarrow> robot \<Rightarrow> kwargs \<Rightarrow> outcome" where
  "should_have_been_placed f self kw =
     (if \<not> placed self then raises self (InvalidOperationException not_placed_message)
      else f self kw)"

definition place :: "robot \<Rightarrow> kwargs \<Rightarrow> outcome" where
  "place self kw =
     (case map_of kw ''action_details'' of
        None \<Rightarrow> raises self (InvalidOperationException (expect_message ''PLACE''))
      | Some action_details \<Rightarrow>
          let location_details = map strip (str_split CHR '','' action_details) in
          if length location_details \<noteq> 3
          then raises self (InvalidOperationException (expect_message (''PLACE '' @ action_details)))
          else
            (case py_int (location_details ! 0) of
               None \<Rightarrow> raises self ValueError
             | Some x \<Rightarrow>
                 (case py_int (location_details ! 1) of
                    None \<Rightarrow> raises self ValueError
                  | Some y \<Rightarrow>
                      if \<not> is_valid_pos self (x, y)
                      then raises self (InvalidOperationException (invalid_position_message self))
                      else if \<not> is_valid_direction (location_details ! 2)
                      then raises self (InvalidOperationException invalid_direction_message)
                      else returns (self\<lparr>pos := Some (x, y),
                                         direction := Some (location_details ! 2),
                                         placed := True\<rparr>))))"

text \<open>
  The bodies of the decorated methods. \<open>move\<close>, \<open>report\<close> and \<open>terminate\<close> declare no
  keyword parameter, so a call with one is a \<open>TypeError\<close>; so is unpacking or zipping
  \<open>None\<close>.
\<close>

definition move_body :: "robot \<Rightarrow> kwargs \<Rightarrow> outcome" where
  "move_body self kw =
     (if kw \<noteq> [] then raises self TypeError
      else
        (case (pos self, case direction self of None \<Rightarrow> None | Some d \<Rightarrow> map_of STEP_BY_DIRECTION d) of
           (Some p, Some step) \<Rightarrow>
             let next_pos = (fst p + fst step, snd p + snd step) in
             if \<not> is_valid_pos self next_pos
             then raises self (InvalidOperationException (destination_message next_pos))
             else returns (self\<lparr>pos := Some next_pos\<rparr>)
         | _ \<Rightarrow> raises self TypeError))"

definition move :: "robot \<Rightarrow> kwargs \<Rightarrow> outcome" where
  "move = should_have_been_placed move_body"

definition turn_body :: "robot \<Rightarrow> kwargs \<Rightarrow> outcome" where
  "turn_body self kw =
     (case map_of kw ''direction'' of
        None \<Rightarrow> raises self KeyError
      | Some turning_direction \<Rightarrow>
          (case (case direction self of None \<Rightarrow> None | Some d \<Rightarrow> tuple_index DIRECTIONS d) of
             None \<Rightarrow> raises self ValueError
           | Some current_direction_index \<Rightarrow>
               if turning_direction = ''RIGHT''
               then returns (self\<lparr>direction :=
                      Some (DIRECTIONS ! nat ((int current_direction_index + 1) mod 4))\<rparr>)
               else if turning_direction = ''LEFT''
               then returns (self\<lparr>direction :=
                      Some (DIRECTIONS ! nat ((int current_direction_index - 1) mod 4))\<rparr>)
               else raises self (InvalidOperationException (turning_message turning_direction))))"

definition turn :: "robot \<Rightarrow> kwargs \<Rightarrow> outcome" where
  "turn = should_have_been_placed turn_body"

definition report_body :: "robot \<Rightarrow> kwargs \<Rightarrow> outcome" where
  "report_body self kw =
     (if kw \<noteq> [] then raises self TypeError
      else
        (case pos self of
           None \<Rightarrow> raises self TypeError
         | Some p \<Rightarrow>
             \<lparr>after = self,
              stdout = [str_int (fst p) @ '', '' @ str_int (snd p) @ '', ''
                          @ (case direction self of None \<Rightarrow> ''None'' | Some d \<Rightarrow> d)],
              raised = None\<rparr>))"

definition report :: "robot \<Rightarrow> kwargs \<Rightarrow> outcome" where
  "report = should_have_been_placed report_body"

definition terminate :: "robot \<Rightarrow> kwargs \<Rightarrow> outcome" where
  "terminate self kw =
     (if kw \<noteq> [] then raises self TypeError
      else \<lparr>after = self, stdout = [''End of service.''], raised = Some (SystemExit 0)\<rparr>)"

fun call :: "handler \<Rightarrow> robot \<Rightarrow> kwargs \<Rightarrow> outcome" where
  "call Place = place"
| "call Turn = turn"
| "call Move = move"
| "call Report = report"
| "call Terminate = terminate"

text \<open>
  \<open>execute_command\<close>. The dictionary of an entry that has \<open>addtional_parameters\<close> is the
  stored object itself, so writing \<open>action_details\<close> into it changes \<open>command_map\<close>;
  an entry without one gets a fresh dictionary on every call.
\<close>

definition execute_command :: "robot \<Rightarrow> string \<Rightarrow> outcome" where
  "execute_command self command =
     (let command_seq = str_split1 CHR '' '' (strip command);
          action = hd command_seq
      in case map_of (command_map self) action of
           None \<Rightarrow> raises self (InvalidOperationException ''Invalid command. Abort.'')
         | Some executor \<Rightarrow>
             let parameters = (case addtional_parameters executor of None \<Rightarrow> [] | Some p \<Rightarrow> p);
                 parameters' = (if length command_seq > 1
                                then AList.update ''action_details'' (command_seq ! 1) parameters
                                else parameters);
                 self' = (if length command_seq > 1 \<and> addtional_parameters executor \<noteq> None
                          then self\<lparr>command_map :=
                                 AList.update action
                                   (executor\<lparr>addtional_parameters := Some parameters'\<rparr>)
                                   (command_map self)\<rparr>
                          else self)
             in call (func executor) self' parameters')"

text \<open>
  The loop of \<open>run\<close> over the lines of the command file, each line taken as it reaches
  \<open>execute_command\<close> (upper-cased already): the message of an
  \<open>InvalidOperationException\<close> is printed and the loop goes on; any other exception
  leaves the loop.
\<close>

fun run_commands :: "robot \<Rightarrow> string list \<Rightarrow> outcome" where
  "run_commands self [] = returns self"
| "run_commands self (command # commands) =
     (let r = execute_command self command in
      case raised r of
        None \<Rightarrow>
          (let r' = run_commands (after r) commands in r'\<lparr>stdout := stdout r @ stdout r'\<rparr>)
      | Some (InvalidOperationException e) \<Rightarrow>
          (let r' = run_commands (after r) commands in r'\<lparr>stdout := stdout r @ [e] @ stdout r'\<rparr>)
      | Some _ \<Rightarrow> r)"

section \<open>Well-formed robots\<close>

text \<open>
  What \<open>__init__\<close> establishes about an entry of \<open>command_map\<close> and every command keeps:
  the method under each keyword, and the \<open>direction\<close> parameter of the two turns.
\<close>

definition entry_ok :: "string \<Rightarrow> executor \<Rightarrow> bool" where
  "entry_ok k e \<longleftrightarrow>
     (if k = ''PLACE'' then func e = Place \<and> addtional_parameters e = None
      else if k = ''LEFT'' then func e = Turn \<and>
        (case addtional_parameters e of None \<Rightarrow> False
         | Some p \<Rightarrow> map_of p ''direction'' = Some ''LEFT'')
      else if k = ''RIGHT'' then func e = Turn \<and>
        (case addtional_parameters e of None \<Rightarrow> False
         | Some p \<Rightarrow> map_of p ''direction'' = Some ''RIGHT'')
      else if k = ''MOVE'' then func e = Move \<and> addtional_parameters e = None
      else if k = ''REPORT'' then func e = Report \<and> addtional_parameters e = None
      else if k = ''EXIT'' then func e = Terminate \<and> addtional_parameters e = None
      else False)"

definition command_map_ok :: "(string \<times> executor) list \<Rightarrow> bool" where
  "command_map_ok cm \<longleftrightarrow>
     list_all (\<lambda>(k, e). entry_ok k e) cm \<and>
     list_all (\<lambda>k. map_of cm k \<noteq> None)
       [''PLACE'', ''LEFT'', ''RIGHT'', ''MOVE'', ''REPORT'', ''EXIT'']"

text \<open>
  The invariant of a robot made for a map of size \<open>ms\<close>: position and heading are set
  exactly when the robot is placed, the position lies on the map and the heading is one
  of \<open>DIRECTIONS\<close>.
\<close>

definition robot_inv :: "int \<times> int \<Rightarrow> robot \<Rightarrow> bool" where
  "robot_inv ms self \<longleftrightarrow>
     command_map_ok (command_map self) \<and>
     map_size_x self = fst ms \<and> map_size_y self = snd ms \<and> map_ranges self = ms \<and>
     (placed self \<longleftrightarrow> pos self \<noteq> None) \<and>
     (placed self \<longleftrightarrow> direction self \<noteq> None) \<and>
     (case pos self of None \<Rightarrow> True | Some p \<Rightarrow> is_valid_pos self p) \<and>
     (case direction self of None \<Rightarrow> True | Some d \<Rightarrow> is_valid_direction d)"

text \<open>\<open>steps s t\<close>: some sequence of calls of \<open>execute_command\<close> leads from \<open>s\<close> to \<open>t\<close>,
  whether the calls return or raise.\<close>

inductive steps :: "robot \<Rightarrow> robot \<Rightarrow> bool" where
  steps_refl: "steps s s"
| steps_step: "steps s t \<Longrightarrow> steps s (after (execute_command t command))"

section \<open>Strings: splitting, printing and reading integers\<close>

declare str_nat.simps [simp del]

lemma isdigit_digit_char: "n < 10 \<Longrightarrow> isdigit (digit_char n)"
  by (simp add: isdigit_def digit_char_def)

lemma digit_value_digit_char: "n < 10 \<Longrightarrow> digit_value (digit_char n) = n"
  by (simp add: digit_value_def digit_char_def)

lemma isdigit_not_isspace: "isdigit c \<Longrightarrow> \<not> isspace c"
  by (auto simp: isdigit_def isspace_def)

lemma isdigit_not_punct: "isdigit c \<Longrightarrow> c \<noteq> CHR '','' \<and> c \<noteq> CHR '' '' \<and> c \<noteq> CHR ''-'' \<and> c \<noteq> CHR ''+''"
  by (auto simp: isdigit_def)

lemma str_nat_digits: "c \<in> set (str_nat n) \<Longrightarrow> isdigit c"
proof (induction n arbitrary: c rule: str_nat.induct)
  case (1 n)
  show ?case
  proof (cases "n < 10")
    case True
    with "1.prems" show ?thesis
      by (simp add: str_nat.simps [of n] isdigit_digit_char)
  next
    case False
    with "1.prems" "1.IH" show ?thesis
      by (auto simp: str_nat.simps [of n] isdigit_digit_char)
  qed
qed

lemma str_nat_not_Nil: "str_nat n \<noteq> []"
  by (subst str_nat.simps) simp

lemma int_digits_all:
  "\<forall>c\<in>set s. isdigit c \<Longrightarrow>
     int_digits acc s = Some (foldl (\<lambda>a c. 10 * a + digit_value c) acc s)"
  by (induction acc s rule: int_digits.induct) auto

lemma int_magnitude_all:
  assumes "s \<noteq> []" and "\<forall>c\<in>set s. isdigit c" and "length s \<le> int_max_str_digits"
  shows "int_magnitude s = Some (foldl (\<lambda>a c. 10 * a + digit_value c) 0 s)"
proof -
  from assms(2) have "filter isdigit s = s" by (simp add: filter_id_conv)
  with assms(3) have "\<not> int_max_str_digits < length (filter isdigit s)" by simp
  with assms(1,2) show ?thesis
    by (cases s) (simp_all add: int_magnitude_def int_digits_all del: filter.simps)
qed

lemma foldl_str_nat: "foldl (\<lambda>a c. 10 * a + digit_value c) 0 (str_nat n) = n"
proof (induction n rule: str_nat.induct)
  case (1 n)
  show ?case
  proof (cases "n < 10")
    case True
    then show ?thesis
      by (simp add: str_nat.simps [of n] digit_value_digit_char)
  next
    case False
    with "1.IH" show ?thesis
      by (simp add: str_nat.simps [of n] digit_value_digit_char)
  qed
qed

lemma int_magnitude_str_nat:
  assumes "length (str_nat n) \<le> int_max_str_digits"
  shows "int_magnitude (str_nat n) = Some n"
proof -
  have "\<forall>c\<in>set (str_nat n). isdigit c" using str_nat_digits by blast
  from int_magnitude_all [OF str_nat_not_Nil this assms] show ?thesis
    by (simp add: foldl_str_nat)
qed

lemma strip_id: "s \<noteq> [] \<Longrightarrow> \<not> isspace (hd s) \<Longrightarrow> \<not> isspace (last s) \<Longrightarrow> strip s = s"
proof -
  assume a: "s \<noteq> []" "\<not> isspace (hd s)" "\<not> isspace (last s)"
  from a have 1: "dropWhile isspace s = s" by (cases s) simp_all
  from a have 2: "dropWhile isspace (rev s) = rev s"
    by (cases "rev s") (simp_all add: hd_rev [symmetric])
  show ?thesis by (simp add: strip_def 1 2)
qed

lemma str_int_chars: "c \<in> set (str_int i) \<Longrightarrow> c = CHR ''-'' \<or> isdigit c"
  by (auto simp: str_int_def dest: str_nat_digits split: if_splits)

lemma str_int_not_Nil: "str_int i \<noteq> []"
  by (simp add: str_int_def str_nat_not_Nil)

lemma strip_str_int: "strip (str_int i) = str_int i"
proof (rule strip_id [OF str_int_not_Nil])
  have "hd (str_int i) \<in> set (str_int i)" by (simp add: str_int_not_Nil)
  then show "\<not> isspace (hd (str_int i))"
    by (auto dest!: str_int_chars simp: isdigit_not_isspace) (simp add: isspace_def)
  have "last (str_nat n) \<in> set (str_nat n)" for n by (simp add: str_nat_not_Nil)
  then have "isdigit (last (str_nat n))" for n by (rule str_nat_digits)
  then show "\<not> isspace (last (str_int i))"
    by (simp add: str_int_def str_nat_not_Nil isdigit_not_isspace)
qed

lemma int_isspace_isspace: "int_isspace c \<Longrightarrow> isspace c"
  by (auto simp: int_isspace_def isspace_def)

lemma int_strip_id:
  assumes "strip s = s" and "s \<noteq> []"
  shows "int_strip s = s"
proof -
  have h: "\<not> isspace (hd s)"
  proof
    assume "isspace (hd s)"
    with assms(2) have "length (dropWhile isspace s) < length s"
      by (cases s) (simp_all add: le_imp_less_Suc length_dropWhile_le)
    moreover have "length (strip s) \<le> length (dropWhile isspace s)"
      using length_dropWhile_le [of isspace "rev (dropWhile isspace s)"]
      by (simp add: strip_def)
    ultimately show False using assms(1) by simp
  qed
  then have d: "dropWhile isspace s = s" using assms(2) by (cases s) simp_all
  have l: "\<not> isspace (last s)"
  proof
    assume "isspace (last s)"
    with assms(2) have "length (dropWhile isspace (rev s)) < length (rev s)"
      by (cases "rev s") (simp_all add: hd_rev [symmetric] le_imp_less_Suc length_dropWhile_le)
    then have "length (strip s) < length s" by (simp add: strip_def d)
    with assms(1) show False by simp
  qed
  from h assms(2) have 1: "dropWhile int_isspace s = s"
    by (cases s) (auto dest: int_isspace_isspace)
  from l assms(2) have 2: "dropWhile int_isspace (rev s) = rev s"
    by (cases "rev s") (auto simp: hd_rev [symmetric] dest: int_isspace_isspace)
  show ?thesis by (simp add: int_strip_def 1 2)
qed

lemma py_int_str_int:
  assumes "length (str_nat (nat \<bar>i\<bar>)) \<le> int_max_str_digits"
  shows "py_int (str_int i) = Some i"
proof (cases "i < 0")
  case True
  with assms have "int_magnitude (str_nat (nat (- i))) = Some (nat (- i))"
    by (intro int_magnitude_str_nat) simp
  with True show ?thesis
    using int_strip_id [OF strip_str_int str_int_not_Nil, of i]
    by (simp add: py_int_def str_int_def)
next
  case False
  obtain c cs where s: "str_nat (nat i) = c # cs"
    using str_nat_not_Nil [of "nat i"] by (cases "str_nat (nat i)") auto
  then have "isdigit c" using str_nat_digits [of c "nat i"] by simp
  then have "c \<noteq> CHR ''-''" "c \<noteq> CHR ''+''" by (simp_all add: isdigit_not_punct)
  moreover from False assms have "int_magnitude (str_nat (nat i)) = Some (nat i)"
    by (intro int_magnitude_str_nat) simp
  ultimately show ?thesis
    using False s int_strip_id [OF strip_str_int str_int_not_Nil, of i]
    by (simp add: py_int_def str_int_def)
qed

text \<open>A literal with more digits than the bound is a \<open>ValueError\<close>, whatever it denotes.\<close>

lemma filter_dropWhile:
  assumes "\<And>x. Q x \<Longrightarrow> \<not> P x"
  shows "filter P (dropWhile Q s) = filter P s"
  using assms by (induction s) auto

lemma filter_isdigit_int_strip: "filter isdigit (int_strip s) = filter isdigit s"
proof -
  have n: "\<not> isdigit x" if "int_isspace x" for x
    using that isdigit_not_isspace [of x] int_isspace_isspace [of x] by blast
  have "filter isdigit (int_strip s) =
          rev (filter isdigit (dropWhile int_isspace (rev (dropWhile int_isspace s))))"
    by (simp add: int_strip_def rev_filter)
  also have "\<dots> = filter isdigit (dropWhile int_isspace s)"
    by (simp add: filter_dropWhile [of int_isspace isdigit, OF n] rev_filter)
  also have "\<dots> = filter isdigit s"
    by (rule filter_dropWhile [OF n])
  finally show ?thesis .
qed

lemma py_int_digit_limit:
  assumes "int_max_str_digits < length (filter isdigit s)"
  shows "py_int s = None"
proof (cases "int_strip s")
  case Nil
  then show ?thesis by (simp add: py_int_def)
next
  case (Cons c cs)
  from assms have l: "int_max_str_digits < length (filter isdigit (c # cs))"
    using filter_isdigit_int_strip [of s] Cons by simp
  then have 1: "int_magnitude (c # cs) = None"
    by (simp add: int_magnitude_def del: filter.simps)
  have "int_magnitude cs = None" if "c = CHR ''-'' \<or> c = CHR ''+''"
  proof -
    from that have "\<not> isdigit c" using isdigit_not_punct [of c] by blast
    with l have "int_max_str_digits < length (filter isdigit cs)" by simp
    then show ?thesis by (simp add: int_magnitude_def)
  qed
  with 1 Cons show ?thesis by (simp add: py_int_def)
qed

lemma str_split_not_Nil: "str_split sep s \<noteq> []"
  by (induction s) (auto split: list.splits)

lemma str_split_no_sep: "sep \<notin> set a \<Longrightarrow> str_split sep a = [a]"
  by (induction a) auto

lemma str_split_append: "sep \<notin> set a \<Longrightarrow> str_split sep (a @ sep # b) = a # str_split sep b"
  by (induction a) (auto split: list.splits)

lemma str_split1_append:
  "sep \<notin> set a \<Longrightarrow> str_split1 sep (a @ sep # b) = [a, b]"
proof -
  assume a: "sep \<notin> set a"
  then have "dropWhile (\<lambda>c. c \<noteq> sep) (a @ sep # b) = sep # b"
    by (induction a) auto
  moreover from a have "takeWhile (\<lambda>c. c \<noteq> sep) (a @ sep # b) = a"
    by (induction a) auto
  ultimately show ?thesis by (simp add: str_split1_def)
qed

lemma str_split1_no_sep: "sep \<notin> set a \<Longrightarrow> str_split1 sep a = [a]"
proof -
  assume "sep \<notin> set a"
  then have d: "dropWhile (\<lambda>c. c \<noteq> sep) a = []"
    by (induction a) auto
  show ?thesis unfolding str_split1_def d by simp
qed

section \<open>The methods, case by case\<close>

lemma after_raises [simp]: "after (raises s e) = s"
  and raised_raises [simp]: "raised (raises s e) = Some e"
  and stdout_raises [simp]: "stdout (raises s e) = []"
  by (simp_all add: raises_def)

lemma after_returns [simp]: "after (returns s) = s"
  and raised_returns [simp]: "raised (returns s) = None"
  and stdout_returns [simp]: "stdout (returns s) = []"
  by (simp_all add: returns_def)

lemma raises_neq_returns [simp]: "raises s e \<noteq> returns t" "returns t \<noteq> raises s e"
  by (auto simp: raises_def returns_def)

lemma place_cases:
  "(\<exists>e. place s kw = raises s e) \<or>
   (\<exists>x y d. is_valid_pos s (x, y) \<and> is_valid_direction d \<and>
      place s kw = returns (s\<lparr>pos := Some (x, y), direction := Some d, placed := True\<rparr>))"
  unfolding place_def Let_def
  by (auto split: option.splits)

lemma move_cases:
  "(\<exists>e. move s kw = raises s e) \<or>
   (\<exists>p. placed s \<and> is_valid_pos s p \<and> direction s \<noteq> None \<and> pos s \<noteq> None \<and>
      move s kw = returns (s\<lparr>pos := Some p\<rparr>))"
  unfolding move_def should_have_been_placed_def move_body_def Let_def
  by (auto split: option.splits)

lemma tuple_index_less: "tuple_index xs x = Some i \<Longrightarrow> i < length xs \<and> xs ! i = x"
  by (induction xs arbitrary: i) (auto split: if_splits)

lemma nth_DIRECTIONS: "k < 4 \<Longrightarrow> is_valid_direction (DIRECTIONS ! k)"
proof -
  assume "k < 4"
  then have "k = 0 \<or> k = 1 \<or> k = 2 \<or> k = 3" by arith
  then show ?thesis
    by (auto simp: is_valid_direction_def DIRECTIONS_def)
qed

lemma turn_cases:
  "(\<exists>e. turn s kw = raises s e) \<or>
   (\<exists>d. placed s \<and> is_valid_direction d \<and> direction s \<noteq> None \<and>
      turn s kw = returns (s\<lparr>direction := Some d\<rparr>))"
proof -
  have "is_valid_direction (DIRECTIONS ! nat ((int i + 1) mod 4))"
      "is_valid_direction (DIRECTIONS ! nat ((int i - 1) mod 4))" for i :: nat
    by (rule nth_DIRECTIONS, simp)+
  then show ?thesis
    unfolding turn_def should_have_been_placed_def turn_body_def
    by (auto split: option.splits)
qed

lemma after_report [simp]: "after (report s kw) = s"
  by (simp add: report_def should_have_been_placed_def report_body_def split: option.splits)

lemma after_terminate [simp]: "after (terminate s kw) = s"
  by (simp add: terminate_def)

section \<open>Dispatch\<close>

lemma set_update_subset: "set (AList.update k v al) \<subseteq> insert (k, v) (set al)"
  by (induction al) auto

lemma command_map_ok_lookup:
  "command_map_ok cm \<Longrightarrow> map_of cm k = Some e \<Longrightarrow> entry_ok k e"
  by (auto simp: command_map_ok_def list_all_iff dest: map_of_SomeD)

lemma command_map_ok_update:
  assumes "command_map_ok cm" and "entry_ok k e"
  shows "command_map_ok (AList.update k e cm)"
proof -
  have "entry_ok k' e'" if "(k', e') \<in> set (AList.update k e cm)" for k' e'
    using that assms set_update_subset [of k e cm]
    by (auto simp: command_map_ok_def list_all_iff)
  moreover have "map_of (AList.update k e cm) k' \<noteq> None" if "map_of cm k' \<noteq> None" for k'
    using that by (simp add: update_conv')
  ultimately show ?thesis
    using assms(1) by (simp add: command_map_ok_def list_all_iff split_beta)
qed

lemma entry_ok_action_details:
  assumes "entry_ok k e" and "addtional_parameters e = Some p"
  shows "entry_ok k (e\<lparr>addtional_parameters := Some (AList.update ''action_details'' v p)\<rparr>)"
  using assms by (auto simp: entry_ok_def update_conv' split: if_splits)

lemma robot_inv_command_map:
  "robot_inv ms s \<Longrightarrow> command_map_ok cm \<Longrightarrow> robot_inv ms (s\<lparr>command_map := cm\<rparr>)"
  by (auto simp: robot_inv_def is_valid_pos_def split: option.splits)

text \<open>What \<open>execute_command\<close> comes to on a well-formed \<open>command_map\<close>.\<close>

lemma execute_command_cases:
  assumes ok: "command_map_ok (command_map s)"
    and action_def: "action = hd (str_split1 CHR '' '' (strip command))"
  shows "(map_of (command_map s) action = None \<and>
          execute_command s command = raises s (InvalidOperationException ''Invalid command. Abort.'')) \<or>
         (\<exists>e cm kw. map_of (command_map s) action = Some e \<and> entry_ok action e \<and>
            command_map_ok cm \<and>
            execute_command s command = call (func e) (s\<lparr>command_map := cm\<rparr>) kw)"
proof (cases "map_of (command_map s) action")
  case None
  then show ?thesis
    by (simp add: execute_command_def action_def Let_def)
next
  case (Some e)
  then have e: "entry_ok action e" using ok by (rule command_map_ok_lookup [rotated])
  let ?seq = "str_split1 CHR '' '' (strip command)"
  show ?thesis
  proof (cases "length ?seq > 1 \<and> addtional_parameters e \<noteq> None")
    case True
    then obtain p where p: "addtional_parameters e = Some p" by auto
    let ?kw = "AList.update ''action_details'' (?seq ! 1) p"
    let ?cm = "AList.update action (e\<lparr>addtional_parameters := Some ?kw\<rparr>) (command_map s)"
    have "command_map_ok ?cm"
      by (rule command_map_ok_update [OF ok entry_ok_action_details [OF e p]])
    moreover have "execute_command s command = call (func e) (s\<lparr>command_map := ?cm\<rparr>) ?kw"
      using True Some p by (simp add: execute_command_def action_def [symmetric] Let_def)
    ultimately show ?thesis using Some e by blast
  next
    case False
    then have "\<exists>kw. execute_command s command = call (func e) s kw"
      using Some by (auto simp: execute_command_def action_def [symmetric] Let_def)
    then obtain kw where "execute_command s command = call (func e) (s\<lparr>command_map := command_map s\<rparr>) kw"
      by auto
    with Some e ok show ?thesis by blast
  qed
qed

section \<open>The invariant is kept\<close>

lemma placed_after_place: "placed s \<Longrightarrow> placed (after (place s kw))"
  using place_cases [of s kw] by auto

lemma placed_after_move: "placed (after (move s kw)) = placed s"
  using move_cases [of s kw] by auto

lemma placed_after_turn: "placed (after (turn s kw)) = placed s"
  using turn_cases [of s kw] by auto

lemma placed_after_call: "placed s \<Longrightarrow> placed (after (call h s kw))"
  by (cases h) (simp_all add: placed_after_place placed_after_move placed_after_turn)

lemma placed_after_call_not_Place:
  "h \<noteq> Place \<Longrightarrow> placed (after (call h s kw)) = placed s"
  by (cases h) (simp_all add: placed_after_move placed_after_turn)

lemma robot_inv_update:
  assumes "robot_inv ms s" and "is_valid_pos s p" and "is_valid_direction d"
  shows "robot_inv ms (s\<lparr>pos := Some p, direction := Some d, placed := True\<rparr>)"
  using assms by (auto simp: robot_inv_def is_valid_pos_def split: option.splits)

lemma robot_inv_pos:
  assumes "robot_inv ms s" and "is_valid_pos s p" and "placed s"
  shows "robot_inv ms (s\<lparr>pos := Some p\<rparr>)"
  using assms by (auto simp: robot_inv_def is_valid_pos_def split: option.splits)

lemma robot_inv_direction:
  assumes "robot_inv ms s" and "is_valid_direction d" and "placed s"
  shows "robot_inv ms (s\<lparr>direction := Some d\<rparr>)"
  using assms by (auto simp: robot_inv_def is_valid_pos_def split: option.splits)

lemma robot_inv_after_place: "robot_inv ms s \<Longrightarrow> robot_inv ms (after (place s kw))"
  using place_cases [of s kw] by (auto intro: robot_inv_update)

lemma robot_inv_after_move: "robot_inv ms s \<Longrightarrow> robot_inv ms (after (move s kw))"
  using move_cases [of s kw] by (auto intro: robot_inv_pos)

lemma robot_inv_after_turn: "robot_inv ms s \<Longrightarrow> robot_inv ms (after (turn s kw))"
  using turn_cases [of s kw] by (auto intro: robot_inv_direction)

lemma robot_inv_after_call: "robot_inv ms s \<Longrightarrow> robot_inv ms (after (call h s kw))"
  by (cases h) (simp_all add: robot_inv_after_place robot_inv_after_move robot_inv_after_turn)

lemma robot_inv_execute_command:
  assumes "robot_inv ms s"
  shows "robot_inv ms (after (execute_command s command))"
proof -
  from assms have ok: "command_map_ok (command_map s)" by (simp add: robot_inv_def)
  from execute_command_cases [OF ok refl, of command] show ?thesis
  proof (elim disjE exE conjE)
    assume "execute_command s command = raises s (InvalidOperationException ''Invalid command. Abort.'')"
    with assms show ?thesis by simp
  next
    fix e cm kw
    assume cm: "command_map_ok cm"
      and ex: "execute_command s command = call (func e) (s\<lparr>command_map := cm\<rparr>) kw"
    from assms cm have "robot_inv ms (s\<lparr>command_map := cm\<rparr>)"
      by (rule robot_inv_command_map)
    then show ?thesis unfolding ex by (rule robot_inv_after_call)
  qed
qed

lemma placed_execute_command:
  assumes "placed s"
  shows "placed (after (execute_command s command))"
proof (cases "map_of (command_map s) (hd (str_split1 CHR '' '' (strip command)))")
  case None
  with assms show ?thesis by (simp add: execute_command_def Let_def)
next
  case (Some e)
  have "placed (after (call h s' kw))" if "placed s'" for h s' kw
    using that by (rule placed_after_call)
  with assms Some show ?thesis by (simp add: execute_command_def Let_def)
qed

lemma entry_ok_Place: "entry_ok k e \<Longrightarrow> func e = Place \<Longrightarrow> k = ''PLACE''"
  by (auto simp: entry_ok_def split: if_splits)

lemma placed_only_by_PLACE:
  assumes ok: "command_map_ok (command_map s)" and np: "\<not> placed s"
    and p: "placed (after (execute_command s command))"
  shows "hd (str_split1 CHR '' '' (strip command)) = ''PLACE''"
proof -
  from execute_command_cases [OF ok refl, of command]
  consider "execute_command s command = raises s (InvalidOperationException ''Invalid command. Abort.'')"
    | e cm kw where "entry_ok (hd (str_split1 CHR '' '' (strip command))) e"
        and "execute_command s command = call (func e) (s\<lparr>command_map := cm\<rparr>) kw"
    by blast
  then show ?thesis
  proof cases
    case 1
    with np p show ?thesis by simp
  next
    case 2
    have "func e = Place"
    proof (rule ccontr)
      assume "func e \<noteq> Place"
      then have "placed (after (call (func e) (s\<lparr>command_map := cm\<rparr>) kw)) = placed (s\<lparr>command_map := cm\<rparr>)"
        by (rule placed_after_call_not_Place)
      with np p 2(2) show False by simp
    qed
    with 2(1) show ?thesis by (rule entry_ok_Place)
  qed
qed

lemma robot_inv_Robot: "robot_inv ms (Robot ms)"
  by (simp add: robot_inv_def Robot_def command_map_ok_def entry_ok_def)

lemma robot_inv_steps: "steps s t \<Longrightarrow> robot_inv ms s \<Longrightarrow> robot_inv ms t"
  by (induction rule: steps.induct) (simp_all add: robot_inv_execute_command)

lemma placed_steps: "steps s t \<Longrightarrow> placed s \<Longrightarrow> placed t"
  by (induction rule: steps.induct) (simp_all add: placed_execute_command)

lemma command_map_ok_entry:
  assumes "command_map_ok cm"
    and "k \<in> set [''PLACE'', ''LEFT'', ''RIGHT'', ''MOVE'', ''REPORT'', ''EXIT'']"
  shows "\<exists>e. map_of cm k = Some e \<and> entry_ok k e"
proof -
  from assms have "map_of cm k \<noteq> None"
    unfolding command_map_ok_def list_all_iff by blast
  then obtain e where "map_of cm k = Some e" by auto
  with assms(1) show ?thesis by (auto dest: command_map_ok_lookup)
qed

lemma command_seq_keyword:
  "str_split1 CHR '' '' (strip ''MOVE'') = [''MOVE'']"
  "str_split1 CHR '' '' (strip ''REPORT'') = [''REPORT'']"
  "str_split1 CHR '' '' (strip ''LEFT'') = [''LEFT'']"
  "str_split1 CHR '' '' (strip ''RIGHT'') = [''RIGHT'']"
  "str_split1 CHR '' '' (strip ''EXIT'') = [''EXIT'']"
  by (simp_all add: strip_def str_split1_def isspace_def)

lemma execute_MOVE:
  assumes "command_map_ok (command_map s)"
  shows "execute_command s ''MOVE'' = move s []"
proof -
  from command_map_ok_entry [OF assms, of "''MOVE''"]
  obtain e where "map_of (command_map s) ''MOVE'' = Some e" and "entry_ok ''MOVE'' e" by auto
  then show ?thesis
    by (simp add: execute_command_def command_seq_keyword entry_ok_def)
qed

lemma execute_REPORT:
  assumes "command_map_ok (command_map s)"
  shows "execute_command s ''REPORT'' = report s []"
proof -
  from command_map_ok_entry [OF assms, of "''REPORT''"]
  obtain e where "map_of (command_map s) ''REPORT'' = Some e" and "entry_ok ''REPORT'' e" by auto
  then show ?thesis
    by (simp add: execute_command_def command_seq_keyword entry_ok_def)
qed

lemma execute_EXIT:
  assumes "command_map_ok (command_map s)"
  shows "execute_command s ''EXIT'' = terminate s []"
proof -
  from command_map_ok_entry [OF assms, of "''EXIT''"]
  obtain e where "map_of (command_map s) ''EXIT'' = Some e" and "entry_ok ''EXIT'' e" by auto
  then show ?thesis
    by (simp add: execute_command_def command_seq_keyword entry_ok_def)
qed

lemma turn_cong:
  "map_of kw ''direction'' = map_of kw' ''direction'' \<Longrightarrow> turn s kw = turn s kw'"
  by (simp add: turn_def should_have_been_placed_def turn_body_def)

lemma execute_LEFT:
  assumes "command_map_ok (command_map s)"
  shows "execute_command s ''LEFT'' = turn s [(''direction'', ''LEFT'')]"
proof -
  from command_map_ok_entry [OF assms, of "''LEFT''"]
  obtain e where e: "map_of (command_map s) ''LEFT'' = Some e" and "entry_ok ''LEFT'' e" by auto
  then obtain p where p: "func e = Turn" "addtional_parameters e = Some p"
      "map_of p ''direction'' = Some ''LEFT''"
    by (auto simp: entry_ok_def split: option.splits)
  from e p(1,2) have "execute_command s ''LEFT'' = turn s p"
    by (simp add: execute_command_def command_seq_keyword)
  also from p(3) have "\<dots> = turn s [(''direction'', ''LEFT'')]"
    by (intro turn_cong) simp
  finally show ?thesis .
qed

lemma execute_RIGHT:
  assumes "command_map_ok (command_map s)"
  shows "execute_command s ''RIGHT'' = turn s [(''direction'', ''RIGHT'')]"
proof -
  from command_map_ok_entry [OF assms, of "''RIGHT''"]
  obtain e where e: "map_of (command_map s) ''RIGHT'' = Some e" and "entry_ok ''RIGHT'' e" by auto
  then obtain p where p: "func e = Turn" "addtional_parameters e = Some p"
      "map_of p ''direction'' = Some ''RIGHT''"
    by (auto simp: entry_ok_def split: option.splits)
  from e p(1,2) have "execute_command s ''RIGHT'' = turn s p"
    by (simp add: execute_command_def command_seq_keyword)
  also from p(3) have "\<dots> = turn s [(''direction'', ''RIGHT'')]"
    by (intro turn_cong) simp
  finally show ?thesis .
qed

lemma execute_PLACE:
  assumes ok: "command_map_ok (command_map s)"
    and d: "details \<noteq> []" "\<not> isspace (last details)"
  shows "execute_command s (''PLACE '' @ details) = place s [(''action_details'', details)]"
proof -
  from command_map_ok_entry [OF ok, of "''PLACE''"]
  obtain e where e: "map_of (command_map s) ''PLACE'' = Some e" and "entry_ok ''PLACE'' e" by auto
  then have f: "func e = Place" "addtional_parameters e = None"
    by (simp_all add: entry_ok_def)
  have "strip (''PLACE '' @ details) = ''PLACE '' @ details"
    using d by (intro strip_id) (simp_all add: isspace_def)
  moreover have "str_split1 CHR '' '' (''PLACE'' @ CHR '' '' # details) = [''PLACE'', details]"
    by (rule str_split1_append) simp
  ultimately have "str_split1 CHR '' '' (strip (''PLACE '' @ details)) = [''PLACE'', details]"
    by simp
  with e f show ?thesis
    by (simp add: execute_command_def)
qed

section \<open>What single calls do\<close>

lemma after_move: "after (move s kw) = s\<lparr>pos := pos (after (move s kw))\<rparr>"
  using move_cases [of s kw] by auto

lemma after_turn: "after (turn s kw) = s\<lparr>direction := direction (after (turn s kw))\<rparr>"
  using turn_cases [of s kw] by auto

lemma less_4_cases: "i < (4::nat) \<Longrightarrow> i = 0 \<or> i = 1 \<or> i = 2 \<or> i = 3"
  by arith

lemma turn_right_step:
  assumes "placed s" and "i < 4" and "direction s = Some (DIRECTIONS ! i)"
  shows "turn s [(''direction'', ''RIGHT'')] =
           returns (s\<lparr>direction := Some (DIRECTIONS ! ((i + 1) mod 4))\<rparr>)"
  using less_4_cases [OF assms(2)] assms(1,3)
  by (elim disjE) (simp_all add: turn_def should_have_been_placed_def turn_body_def DIRECTIONS_def)

lemma turn_left_step:
  assumes "placed s" and "i < 4" and "direction s = Some (DIRECTIONS ! i)"
  shows "turn s [(''direction'', ''LEFT'')] =
           returns (s\<lparr>direction := Some (DIRECTIONS ! nat ((int i - 1) mod 4))\<rparr>)"
  using less_4_cases [OF assms(2)] assms(1,3)
  by (elim disjE) (simp_all add: turn_def should_have_been_placed_def turn_body_def DIRECTIONS_def)

lemma left_index:
  assumes "i < 4"
  shows "nat ((int i - 1) mod 4) = (i + 3) mod 4"
  using less_4_cases [OF assms] by (elim disjE) simp_all

lemma direction_same: "direction s = d \<Longrightarrow> s\<lparr>direction := d\<rparr> = s"
  by auto

lemma direction_token:
  assumes "d \<in> set DIRECTIONS"
  shows "d \<noteq> []" and "\<not> isspace (last d)" and "CHR '','' \<notin> set d" and "strip d = d"
  using assms by (auto simp: DIRECTIONS_def isspace_def strip_def)

lemma str_int_no_comma: "CHR '','' \<notin> set (str_int i)"
  using str_int_chars [of "CHR '',''" i] isdigit_not_punct [of "CHR '',''"] by auto

lemma location_details:
  assumes "d \<in> set DIRECTIONS"
  shows "map strip (str_split CHR '','' (str_int x @ '','' @ str_int y @ '','' @ d)) =
           [str_int x, str_int y, d]"
proof -
  have "str_split CHR '','' (str_int x @ CHR '','' # (str_int y @ CHR '','' # d)) =
          [str_int x, str_int y, d]"
    by (simp add: str_split_append str_split_no_sep str_int_no_comma direction_token(3) [OF assms])
  then show ?thesis
    by (simp add: strip_str_int direction_token(4) [OF assms])
qed

lemma place_valid:
  assumes "d \<in> set DIRECTIONS" and "is_valid_pos s (x, y)"
    and "py_int (str_int x) = Some x" and "py_int (str_int y) = Some y"
  shows "place s [(''action_details'', str_int x @ '','' @ str_int y @ '','' @ d)] =
           returns (s\<lparr>pos := Some (x, y), direction := Some d, placed := True\<rparr>)"
  using assms
  by (simp add: place_def location_details is_valid_direction_def
      del: append.simps append_Cons append_Nil)

lemma report_placed:
  assumes "placed s" and "pos s = Some (x, y)" and "direction s = Some d"
  shows "report s [] =
           \<lparr>after = s, stdout = [str_int x @ '', '' @ str_int y @ '', '' @ d], raised = None\<rparr>"
  using assms by (simp add: report_def should_have_been_placed_def report_body_def)

text \<open>A returning \<open>place\<close> has read its argument: three parts, two integers on the map
  and a heading.\<close>

lemma length_3: "length l = 3 \<Longrightarrow> \<exists>a b c. l = [a, b, c]"
  by (auto simp: numeral_3_eq_3 length_Suc_conv)

lemma place_returns_parsed:
  assumes r: "raised (place s kw) = None"
  shows "\<exists>details px py sx sy d.
           map_of kw ''action_details'' = Some details \<and>
           map strip (str_split CHR '','' details) = [sx, sy, d] \<and>
           py_int sx = Some px \<and> py_int sy = Some py \<and>
           0 \<le> px \<and> px < fst (map_ranges s) \<and> 0 \<le> py \<and> py < snd (map_ranges s) \<and>
           d \<in> set DIRECTIONS \<and>
           place s kw = returns (s\<lparr>pos := Some (px, py), direction := Some d, placed := True\<rparr>)"
proof -
  from r obtain details where ad: "map_of kw ''action_details'' = Some details"
    by (cases "map_of kw ''action_details''") (simp_all add: place_def)
  have "length (map strip (str_split CHR '','' details)) = 3"
  proof (rule ccontr)
    assume "length (map strip (str_split CHR '','' details)) \<noteq> 3"
    with ad have "raised (place s kw) \<noteq> None" by (simp add: place_def Let_def)
    with r show False by simp
  qed
  from length_3 [OF this]
  obtain sx sy d where l: "map strip (str_split CHR '','' details) = [sx, sy, d]"
    by (elim exE)
  from r ad l obtain px where px: "py_int sx = Some px"
    by (cases "py_int sx") (simp_all add: place_def)
  from r ad l px obtain py where py: "py_int sy = Some py"
    by (cases "py_int sy") (simp_all add: place_def)
  have v: "is_valid_pos s (px, py)"
  proof (rule ccontr)
    assume "\<not> is_valid_pos s (px, py)"
    with ad l px py have "raised (place s kw) \<noteq> None" by (simp add: place_def)
    with r show False by simp
  qed
  have d: "is_valid_direction d"
  proof (rule ccontr)
    assume "\<not> is_valid_direction d"
    with ad l px py v have "raised (place s kw) \<noteq> None" by (simp add: place_def)
    with r show False by simp
  qed
  from ad l px py v d
  have "place s kw = returns (s\<lparr>pos := Some (px, py), direction := Some d, placed := True\<rparr>)"
    by (simp add: place_def)
  with ad l px py v d show ?thesis
    by (auto simp: is_valid_pos_def in_range_def is_valid_direction_def)
qed

text \<open>A coordinate written with more digits than \<open>int\<close> reads is a \<open>ValueError\<close>, also
  when it denotes a position on the map.\<close>

lemma place_digit_limit:
  assumes "map_of kw ''action_details'' = Some details"
    and "map strip (str_split CHR '','' details) = [sx, sy, d]"
    and "int_max_str_digits < length (filter isdigit sx)"
  shows "place s kw = raises s ValueError"
  using assms(1,2) py_int_digit_limit [OF assms(3)]
  by (simp add: place_def)

section \<open>The claims\<close>

text \<open>
  Claim C1. On a robot reached from \<open>Robot (w, h)\<close> by any commands, for every position
  \<open>(x, y)\<close> with \<open>0 \<le> x < w\<close> and \<open>0 \<le> y < h\<close> and each of the four headings, the
  line \<open>PLACE x,y,HEADING\<close> (the coordinates in decimal) returns with the robot placed
  there, and \<open>REPORT\<close> then prints exactly the line \<open>x, y, HEADING\<close> and changes nothing.
  The coordinates are written with no more digits than \<open>int\<close> reads, which holds on
  every map up to \<open>10 ^ 4300\<close> wide and high.
\<close>

theorem place_then_report:
  assumes "steps (Robot (w, h)) s"
    and "0 \<le> x" and "x < w" and "0 \<le> y" and "y < h"
    and "d \<in> set DIRECTIONS"
    and "length (str_int x) \<le> int_max_str_digits"
    and "length (str_int y) \<le> int_max_str_digits"
  shows "execute_command s (''PLACE '' @ str_int x @ '','' @ str_int y @ '','' @ d) =
           returns (s\<lparr>pos := Some (x, y), direction := Some d, placed := True\<rparr>) \<and>
         execute_command (s\<lparr>pos := Some (x, y), direction := Some d, placed := True\<rparr>) ''REPORT'' =
           \<lparr>after = s\<lparr>pos := Some (x, y), direction := Some d, placed := True\<rparr>,
            stdout = [str_int x @ '', '' @ str_int y @ '', '' @ d],
            raised = None\<rparr>"
proof -
  let ?details = "str_int x @ '','' @ str_int y @ '','' @ d"
  let ?t = "s\<lparr>pos := Some (x, y), direction := Some d, placed := True\<rparr>"
  from assms(1) robot_inv_Robot have inv: "robot_inv (w, h) s" by (rule robot_inv_steps)
  then have ok: "command_map_ok (command_map s)" and m: "map_ranges s = (w, h)"
    by (simp_all add: robot_inv_def)
  from m assms(2-5) have v: "is_valid_pos s (x, y)"
    by (simp add: is_valid_pos_def in_range_def)
  have "?details \<noteq> []" by simp
  moreover have "\<not> isspace (last ?details)"
    using direction_token(1,2) [OF assms(6)] by simp
  ultimately have "execute_command s (''PLACE '' @ ?details) = place s [(''action_details'', ?details)]"
    by (rule execute_PLACE [OF ok])
  also have "\<dots> = returns ?t"
  proof (rule place_valid [OF assms(6) v])
    from assms(2,7) show "py_int (str_int x) = Some x"
      by (intro py_int_str_int) (simp add: str_int_def)
    from assms(4,8) show "py_int (str_int y) = Some y"
      by (intro py_int_str_int) (simp add: str_int_def)
  qed
  finally have 1: "execute_command s (''PLACE '' @ ?details) = returns ?t" .
  from ok have "command_map_ok (command_map ?t)" by simp
  then have "execute_command ?t ''REPORT'' = report ?t []" by (rule execute_REPORT)
  also have "\<dots> = \<lparr>after = ?t, stdout = [str_int x @ '', '' @ str_int y @ '', '' @ d], raised = None\<rparr>"
    by (rule report_placed) simp_all
  finally show ?thesis using 1 by simp
qed

text \<open>The instance \<open>PLACE 4,0,SOUTH\<close> on the fresh 5 by 5 robot.\<close>

theorem place_then_report_witness:
  "execute_command (Robot (5, 5)) ''PLACE 4,0,SOUTH'' =
     returns (Robot (5, 5)\<lparr>pos := Some (4, 0), direction := Some ''SOUTH'', placed := True\<rparr>) \<and>
   execute_command (Robot (5, 5)\<lparr>pos := Some (4, 0), direction := Some ''SOUTH'', placed := True\<rparr>) ''REPORT'' =
     \<lparr>after = Robot (5, 5)\<lparr>pos := Some (4, 0), direction := Some ''SOUTH'', placed := True\<rparr>,
      stdout = [''4, 0, SOUTH''], raised = None\<rparr>"
proof -
  have s: "str_int 4 = ''4''" "str_int 0 = ''0''" by code_simp+
  have d: "''SOUTH'' \<in> set DIRECTIONS" by (simp add: DIRECTIONS_def)
  from place_then_report [OF steps_refl, of 4 5 0 5 "''SOUTH''"] d show ?thesis
    by (simp add: s int_max_str_digits_def)
qed

text \<open>
  Claim C2. In every state reached from the initial one by calls of \<open>execute_command\<close>:
  position and heading are both set exactly when \<open>placed\<close> holds; a placed robot stands
  within the map; a command that turns \<open>placed\<close> from false to true has the keyword
  \<open>PLACE\<close>; and from a placed robot every further sequence of commands leads to a placed
  robot.
\<close>

theorem robot_invariant:
  assumes "steps (Robot ms) s"
  shows "((pos s \<noteq> None \<and> direction s \<noteq> None) \<longleftrightarrow> placed s) \<and>
         (placed s \<longrightarrow> (\<exists>x y. pos s = Some (x, y) \<and> 0 \<le> x \<and> x < fst ms \<and> 0 \<le> y \<and> y < snd ms)) \<and>
         (\<forall>command. \<not> placed s \<and> placed (after (execute_command s command)) \<longrightarrow>
            hd (str_split1 CHR '' '' (strip command)) = ''PLACE'') \<and>
         (\<forall>t. placed s \<and> steps s t \<longrightarrow> placed t)"
proof -
  from assms robot_inv_Robot have inv: "robot_inv ms s" by (rule robot_inv_steps)
  then have ok: "command_map_ok (command_map s)" by (simp add: robot_inv_def)
  from inv have "(pos s \<noteq> None \<and> direction s \<noteq> None) \<longleftrightarrow> placed s"
    by (auto simp: robot_inv_def)
  moreover from inv have "placed s \<longrightarrow>
      (\<exists>x y. pos s = Some (x, y) \<and> 0 \<le> x \<and> x < fst ms \<and> 0 \<le> y \<and> y < snd ms)"
    by (auto simp: robot_inv_def is_valid_pos_def in_range_def split: option.splits)
  moreover have "\<forall>command. \<not> placed s \<and> placed (after (execute_command s command)) \<longrightarrow>
            hd (str_split1 CHR '' '' (strip command)) = ''PLACE''"
    using placed_only_by_PLACE [OF ok] by blast
  moreover have "\<forall>t. placed s \<and> steps s t \<longrightarrow> placed t"
    using placed_steps by blast
  ultimately show ?thesis by blast
qed

text \<open>The instance: the state after \<open>PLACE 1,2,EAST\<close>, and a failing \<open>PLACE\<close> after it.\<close>

theorem robot_invariant_witness:
  "steps (Robot MAP_SIZE) (after (execute_command (Robot MAP_SIZE) ''PLACE 1,2,EAST'')) \<and>
   placed (after (execute_command (Robot MAP_SIZE) ''PLACE 1,2,EAST'')) \<and>
   (\<exists>x y. pos (after (execute_command (Robot MAP_SIZE) ''PLACE 1,2,EAST'')) = Some (x, y) \<and>
      0 \<le> x \<and> x < fst MAP_SIZE \<and> 0 \<le> y \<and> y < snd MAP_SIZE) \<and>
   placed (after (execute_command (after (execute_command (Robot MAP_SIZE) ''PLACE 1,2,EAST'')) ''PLACE 9,9,EAST''))"
proof -
  let ?s = "after (execute_command (Robot MAP_SIZE) ''PLACE 1,2,EAST'')"
  have st: "steps (Robot MAP_SIZE) ?s" by (rule steps_step [OF steps_refl])
  have p: "placed ?s" by code_simp
  have st2: "steps ?s (after (execute_command ?s ''PLACE 9,9,EAST''))"
    by (rule steps_step [OF steps_refl])
  from robot_invariant [OF st] p st2 st show ?thesis by blast
qed

text \<open>
  Claim C3. On a placed robot at \<open>(x, y)\<close> with a heading of \<open>DIRECTIONS\<close>, \<open>move\<close> adds
  the step of the heading (north \<open>(0, 1)\<close>, south \<open>(0, -1)\<close>, east \<open>(1, 0)\<close>, west
  \<open>(-1, 0)\<close>); a candidate on the map becomes the position, and otherwise the call raises
  \<open>InvalidOperationException\<close> with the message \<open>Destination (cx, cy) cannot be reached.\<close>
  and leaves the robot as it was.
\<close>

theorem move_step:
  assumes "placed s" and "pos s = Some (x, y)" and "direction s = Some d"
    and "d \<in> set DIRECTIONS"
  shows "let step = (if d = ''NORTH'' then (0, 1) else if d = ''SOUTH'' then (0, - 1)
                     else if d = ''EAST'' then (1, 0) else (- 1, 0));
             cx = x + fst step; cy = y + snd step
         in move s [] =
              (if 0 \<le> cx \<and> cx < fst (map_ranges s) \<and> 0 \<le> cy \<and> cy < snd (map_ranges s)
               then returns (s\<lparr>pos := Some (cx, cy)\<rparr>)
               else raises s (InvalidOperationException
                 (''Destination ('' @ str_int cx @ '', '' @ str_int cy @ '') cannot be reached.'')))"
proof -
  from assms(4) consider "d = ''NORTH''" | "d = ''EAST''" | "d = ''SOUTH''" | "d = ''WEST''"
    by (auto simp: DIRECTIONS_def)
  then show ?thesis
    using assms(1-3)
    by cases
      (simp_all add: move_def should_have_been_placed_def move_body_def STEP_BY_DIRECTION_def
        is_valid_pos_def in_range_def destination_message_def str_tuple_def Let_def)
qed

text \<open>The instances: north from \<open>(0, 4)\<close> fails, west from \<open>(2, 2)\<close> reaches \<open>(1, 2)\<close>.\<close>

theorem move_step_witness:
  "move (Robot MAP_SIZE\<lparr>placed := True, pos := Some (0, 4), direction := Some ''NORTH''\<rparr>) [] =
     raises (Robot MAP_SIZE\<lparr>placed := True, pos := Some (0, 4), direction := Some ''NORTH''\<rparr>)
       (InvalidOperationException ''Destination (0, 5) cannot be reached.'') \<and>
   move (Robot MAP_SIZE\<lparr>placed := True, pos := Some (2, 2), direction := Some ''WEST''\<rparr>) [] =
     returns (Robot MAP_SIZE\<lparr>placed := True, pos := Some (1, 2), direction := Some ''WEST''\<rparr>)"
proof -
  have s: "str_int 0 = ''0''" "str_int 5 = ''5''" by code_simp+
  have d: "''NORTH'' \<in> set DIRECTIONS" "''WEST'' \<in> set DIRECTIONS" by (simp_all add: DIRECTIONS_def)
  have "move (Robot MAP_SIZE\<lparr>placed := True, pos := Some (0, 4), direction := Some ''NORTH''\<rparr>) [] =
     raises (Robot MAP_SIZE\<lparr>placed := True, pos := Some (0, 4), direction := Some ''NORTH''\<rparr>)
       (InvalidOperationException ''Destination (0, 5) cannot be reached.'')"
    using move_step [of "Robot MAP_SIZE\<lparr>placed := True, pos := Some (0, 4), direction := Some ''NORTH''\<rparr>"
        0 4 "''NORTH''", OF _ _ _ d(1)]
    by (simp add: Robot_def MAP_SIZE_def s)
  moreover have "move (Robot MAP_SIZE\<lparr>placed := True, pos := Some (2, 2), direction := Some ''WEST''\<rparr>) [] =
     returns (Robot MAP_SIZE\<lparr>placed := True, pos := Some (1, 2), direction := Some ''WEST''\<rparr>)"
    using move_step [of "Robot MAP_SIZE\<lparr>placed := True, pos := Some (2, 2), direction := Some ''WEST''\<rparr>"
        2 2 "''WEST''", OF _ _ _ d(2)]
    by (simp add: Robot_def MAP_SIZE_def)
  ultimately show ?thesis by simp
qed

text \<open>
  Claim C4. \<open>place\<close> is all or nothing. An argument of three parts whose coordinates read
  as integers outside the map raises \<open>InvalidOperationException\<close> with the message about
  the bounds, the robot unchanged (so an unplaced robot stays unplaced); every raising
  \<open>place\<close> leaves the robot unchanged; a returning \<open>place\<close> has set position, heading
  and \<open>placed\<close> together, to the two integers and the heading its argument reads as,
  a position on the map and a heading of \<open>DIRECTIONS\<close>; and an argument that reads as
  such a position and heading makes \<open>place\<close> return.
\<close>

theorem place_atomic:
  "(map_of kw ''action_details'' = Some ad \<and>
    map strip (str_split CHR '','' ad) = [tx, ty, td] \<and>
    py_int tx = Some x \<and> py_int ty = Some y \<and>
    \<not> (0 \<le> x \<and> x < fst (map_ranges s) \<and> 0 \<le> y \<and> y < snd (map_ranges s)) \<longrightarrow>
      place s kw = raises s (InvalidOperationException
        (''Invalid position in the map, should be within 0 to '' @ str_int (map_size_x s)
           @ '' in X and 0 to '' @ str_int (map_size_y s) @ '' in Y.''))) \<and>
   (raised (place s kw) \<noteq> None \<longrightarrow> after (place s kw) = s) \<and>
   (raised (place s kw) = None \<longrightarrow>
      (\<exists>details px py sx sy d.
         map_of kw ''action_details'' = Some details \<and>
         map strip (str_split CHR '','' details) = [sx, sy, d] \<and>
         py_int sx = Some px \<and> py_int sy = Some py \<and>
         0 \<le> px \<and> px < fst (map_ranges s) \<and> 0 \<le> py \<and> py < snd (map_ranges s) \<and>
         d \<in> set DIRECTIONS \<and>
         place s kw = returns (s\<lparr>pos := Some (px, py), direction := Some d, placed := True\<rparr>))) \<and>
   (map_of kw ''action_details'' = Some ad \<and>
    map strip (str_split CHR '','' ad) = [tx, ty, td] \<and>
    py_int tx = Some x \<and> py_int ty = Some y \<and>
    0 \<le> x \<and> x < fst (map_ranges s) \<and> 0 \<le> y \<and> y < snd (map_ranges s) \<and>
    td \<in> set DIRECTIONS \<longrightarrow>
      place s kw = returns (s\<lparr>pos := Some (x, y), direction := Some td, placed := True\<rparr>))"
proof (intro conjI impI)
  assume a: "map_of kw ''action_details'' = Some ad \<and>
    map strip (str_split CHR '','' ad) = [tx, ty, td] \<and>
    py_int tx = Some x \<and> py_int ty = Some y \<and>
    \<not> (0 \<le> x \<and> x < fst (map_ranges s) \<and> 0 \<le> y \<and> y < snd (map_ranges s))"
  then have "\<not> is_valid_pos s (x, y)"
    by (simp add: is_valid_pos_def in_range_def)
  with a show "place s kw = raises s (InvalidOperationException
        (''Invalid position in the map, should be within 0 to '' @ str_int (map_size_x s)
           @ '' in X and 0 to '' @ str_int (map_size_y s) @ '' in Y.''))"
    by (simp add: place_def invalid_position_message_def)
next
  assume "raised (place s kw) \<noteq> None"
  with place_cases [of s kw] show "after (place s kw) = s" by auto
next
  assume r: "raised (place s kw) = None"
  show "\<exists>details px py sx sy d.
         map_of kw ''action_details'' = Some details \<and>
         map strip (str_split CHR '','' details) = [sx, sy, d] \<and>
         py_int sx = Some px \<and> py_int sy = Some py \<and>
         0 \<le> px \<and> px < fst (map_ranges s) \<and> 0 \<le> py \<and> py < snd (map_ranges s) \<and>
         d \<in> set DIRECTIONS \<and>
         place s kw = returns (s\<lparr>pos := Some (px, py), direction := Some d, placed := True\<rparr>)"
    by (rule place_returns_parsed [OF r])
next
  assume "map_of kw ''action_details'' = Some ad \<and>
    map strip (str_split CHR '','' ad) = [tx, ty, td] \<and>
    py_int tx = Some x \<and> py_int ty = Some y \<and>
    0 \<le> x \<and> x < fst (map_ranges s) \<and> 0 \<le> y \<and> y < snd (map_ranges s) \<and>
    td \<in> set DIRECTIONS"
  then show "place s kw = returns (s\<lparr>pos := Some (x, y), direction := Some td, placed := True\<rparr>)"
    by (simp add: place_def is_valid_pos_def in_range_def is_valid_direction_def)
qed

text \<open>
  The instances, on the fresh 5 by 5 robot: \<open>-1,5,NORTH\<close> is refused; \<open>4,0,WEST\<close> puts
  the robot at \<open>(4, 0)\<close> facing west.
\<close>

theorem place_atomic_witness:
  "place (Robot MAP_SIZE) [(''action_details'', ''-1,5,NORTH'')] =
     raises (Robot MAP_SIZE) (InvalidOperationException
       ''Invalid position in the map, should be within 0 to 5 in X and 0 to 5 in Y.'') \<and>
   place (Robot MAP_SIZE) [(''action_details'', ''4,0,WEST'')] =
     returns (Robot MAP_SIZE\<lparr>pos := Some (4, 0), direction := Some ''WEST'', placed := True\<rparr>)"
proof -
  have 1: "map strip (str_split CHR '','' ''-1,5,NORTH'') = [''-1'', ''5'', ''NORTH'']"
    "map strip (str_split CHR '','' ''4,0,WEST'') = [''4'', ''0'', ''WEST'']"
    by code_simp+
  have 2: "py_int ''-1'' = Some (- 1)" "py_int ''5'' = Some 5"
    "py_int ''4'' = Some 4" "py_int ''0'' = Some 0"
    by code_simp+
  have 3: "str_int (map_size_x (Robot MAP_SIZE)) = ''5''"
    "str_int (map_size_y (Robot MAP_SIZE)) = ''5''"
    by code_simp+
  have 4: "''WEST'' \<in> set DIRECTIONS" by (simp add: DIRECTIONS_def)
  have 5: "map_ranges (Robot MAP_SIZE) = (5, 5)" by (simp add: Robot_def MAP_SIZE_def)
  note refused = place_atomic [where kw = "[(''action_details'', ''-1,5,NORTH'')]"
      and ad = "''-1,5,NORTH''" and tx = "''-1''" and ty = "''5''" and td = "''NORTH''"
      and x = "- 1" and y = 5 and s = "Robot MAP_SIZE", THEN conjunct1, THEN mp]
  note accepted = place_atomic [where kw = "[(''action_details'', ''4,0,WEST'')]"
      and ad = "''4,0,WEST''" and tx = "''4''" and ty = "''0''" and td = "''WEST''"
      and x = 4 and y = 0 and s = "Robot MAP_SIZE",
      THEN conjunct2, THEN conjunct2, THEN conjunct2, THEN mp]
  have "place (Robot MAP_SIZE) [(''action_details'', ''-1,5,NORTH'')] =
     raises (Robot MAP_SIZE) (InvalidOperationException
       (''Invalid position in the map, should be within 0 to ''
          @ str_int (map_size_x (Robot MAP_SIZE)) @ '' in X and 0 to ''
          @ str_int (map_size_y (Robot MAP_SIZE)) @ '' in Y.''))"
    by (rule refused) (intro conjI 1 2; simp add: 5)
  then have "place (Robot MAP_SIZE) [(''action_details'', ''-1,5,NORTH'')] =
     raises (Robot MAP_SIZE) (InvalidOperationException
       ''Invalid position in the map, should be within 0 to 5 in X and 0 to 5 in Y.'')"
    by (simp only: 3 append.simps)
  moreover have "place (Robot MAP_SIZE) [(''action_details'', ''4,0,WEST'')] =
     returns (Robot MAP_SIZE\<lparr>pos := Some (4, 0), direction := Some ''WEST'', placed := True\<rparr>)"
    by (rule accepted) (intro conjI 1 2 4; simp add: 5)
  ultimately show ?thesis by (rule conjI)
qed

text \<open>
  Claim C5, as the code has it. On a robot that is not placed, \<open>move\<close>, \<open>turn\<close> and
  \<open>report\<close> raise \<open>InvalidOperationException\<close> with the message of the decorator before
  anything else, whatever their arguments, and leave the robot unchanged; so do the
  lines \<open>MOVE\<close>, \<open>LEFT\<close>, \<open>RIGHT\<close> and \<open>REPORT\<close>. \<open>terminate\<close> is not decorated: on
  such a robot \<open>EXIT\<close> prints \<open>End of service.\<close> and raises \<open>SystemExit(0)\<close>.
\<close>

theorem not_placed_guard:
  assumes "\<not> placed s"
  shows "move s kw = raises s (InvalidOperationException
           ''A robot must be placed before any other command can be executed. Abort.'') \<and>
         turn s kw = raises s (InvalidOperationException
           ''A robot must be placed before any other command can be executed. Abort.'') \<and>
         report s kw = raises s (InvalidOperationException
           ''A robot must be placed before any other command can be executed. Abort.'') \<and>
         (command_map_ok (command_map s) \<longrightarrow>
            (\<forall>command \<in> set [''MOVE'', ''LEFT'', ''RIGHT'', ''REPORT''].
               execute_command s command = raises s (InvalidOperationException
                 ''A robot must be placed before any other command can be executed. Abort.''))) \<and>
         terminate s [] =
           \<lparr>after = s, stdout = [''End of service.''], raised = Some (SystemExit 0)\<rparr> \<and>
         (command_map_ok (command_map s) \<longrightarrow>
            execute_command s ''EXIT'' =
              \<lparr>after = s, stdout = [''End of service.''], raised = Some (SystemExit 0)\<rparr>)"
proof -
  have h: "move s kw' = raises s (InvalidOperationException not_placed_message)"
    "turn s kw' = raises s (InvalidOperationException not_placed_message)"
    "report s kw' = raises s (InvalidOperationException not_placed_message)" for kw'
    using assms by (simp_all add: move_def turn_def report_def should_have_been_placed_def)
  show ?thesis
    using h
    by (simp add: execute_MOVE execute_LEFT execute_RIGHT execute_REPORT execute_EXIT
        terminate_def not_placed_message_def)
qed

text \<open>The instance: the fresh 5 by 5 robot.\<close>

theorem not_placed_guard_witness:
  "\<not> placed (Robot MAP_SIZE) \<and> command_map_ok (command_map (Robot MAP_SIZE)) \<and>
   execute_command (Robot MAP_SIZE) ''MOVE'' =
     \<lparr>after = Robot MAP_SIZE, stdout = [],
      raised = Some (InvalidOperationException
        ''A robot must be placed before any other command can be executed. Abort.'')\<rparr> \<and>
   report (Robot MAP_SIZE) [] =
     \<lparr>after = Robot MAP_SIZE, stdout = [],
      raised = Some (InvalidOperationException
        ''A robot must be placed before any other command can be executed. Abort.'')\<rparr>"
proof -
  have np: "\<not> placed (Robot MAP_SIZE)" by (simp add: Robot_def)
  have ok: "command_map_ok (command_map (Robot MAP_SIZE))" by code_simp
  from not_placed_guard [OF np, of "[]"] ok show ?thesis
    using np by (simp add: raises_def)
qed

text \<open>
  The claim as stated includes \<open>EXIT\<close>. On the fresh robot, which is not placed, \<open>EXIT\<close>
  prints \<open>End of service.\<close> and raises \<open>SystemExit(0)\<close>, not the error of the decorator.
\<close>

theorem exit_before_place_counterexample:
  "\<not> placed (Robot MAP_SIZE) \<and>
   terminate (Robot MAP_SIZE) [] =
     \<lparr>after = Robot MAP_SIZE, stdout = [''End of service.''], raised = Some (SystemExit 0)\<rparr> \<and>
   execute_command (Robot MAP_SIZE) ''EXIT'' =
     \<lparr>after = Robot MAP_SIZE, stdout = [''End of service.''], raised = Some (SystemExit 0)\<rparr>"
  by code_simp

text \<open>
  Claim C6. On a placed robot whose heading is \<open>DIRECTIONS ! i\<close>, a right turn sets the
  heading at index \<open>(i + 1) mod 4\<close> and a left turn the one at index \<open>(i - 1) mod 4\<close>;
  four right turns, and four left turns, give back the robot one started from.
\<close>

theorem turn_cyclic:
  assumes "placed s" and "i < 4" and "direction s = Some (DIRECTIONS ! i)"
  shows "turn s [(''direction'', ''RIGHT'')] =
           returns (s\<lparr>direction := Some (DIRECTIONS ! ((i + 1) mod 4))\<rparr>) \<and>
         turn s [(''direction'', ''LEFT'')] =
           returns (s\<lparr>direction := Some (DIRECTIONS ! nat ((int i - 1) mod 4))\<rparr>) \<and>
         after (turn (after (turn (after (turn (after (turn s [(''direction'', ''RIGHT'')]))
           [(''direction'', ''RIGHT'')])) [(''direction'', ''RIGHT'')])) [(''direction'', ''RIGHT'')]) = s \<and>
         after (turn (after (turn (after (turn (after (turn s [(''direction'', ''LEFT'')]))
           [(''direction'', ''LEFT'')])) [(''direction'', ''LEFT'')])) [(''direction'', ''LEFT'')]) = s"
proof -
  have R: "after (turn t [(''direction'', ''RIGHT'')]) = t\<lparr>direction := Some (DIRECTIONS ! ((j + 1) mod 4))\<rparr>"
    if "placed t" "j < 4" "direction t = Some (DIRECTIONS ! j)" for t j
    using turn_right_step [OF that] by simp
  have L: "after (turn t [(''direction'', ''LEFT'')]) = t\<lparr>direction := Some (DIRECTIONS ! ((j + 3) mod 4))\<rparr>"
    if "placed t" "j < 4" "direction t = Some (DIRECTIONS ! j)" for t j
    using turn_left_step [OF that] left_index [OF that(2)] by simp
  let ?r = "\<lambda>t. after (turn t [(''direction'', ''RIGHT'')])"
  let ?l = "\<lambda>t. after (turn t [(''direction'', ''LEFT'')])"
  have r1: "?r s = s\<lparr>direction := Some (DIRECTIONS ! ((i + 1) mod 4))\<rparr>"
    using assms by (rule R)
  have r2: "?r (?r s) = s\<lparr>direction := Some (DIRECTIONS ! ((i + 2) mod 4))\<rparr>"
    unfolding r1 using assms(1) by (subst R [where j = "(i + 1) mod 4"]) (simp_all add: mod_simps add.commute)
  have r3: "?r (?r (?r s)) = s\<lparr>direction := Some (DIRECTIONS ! ((i + 3) mod 4))\<rparr>"
    unfolding r2 using assms(1) by (subst R [where j = "(i + 2) mod 4"]) (simp_all add: mod_simps add.commute)
  have r4: "?r (?r (?r (?r s))) = s\<lparr>direction := Some (DIRECTIONS ! ((i + 4) mod 4))\<rparr>"
    unfolding r3 using assms(1) by (subst R [where j = "(i + 3) mod 4"]) (simp_all add: mod_simps add.commute)
  have l1: "?l s = s\<lparr>direction := Some (DIRECTIONS ! ((i + 3) mod 4))\<rparr>"
    using assms by (rule L)
  have l2: "?l (?l s) = s\<lparr>direction := Some (DIRECTIONS ! ((i + 6) mod 4))\<rparr>"
    unfolding l1 using assms(1) by (subst L [where j = "(i + 3) mod 4"]) (simp_all add: mod_simps add.commute)
  have l3: "?l (?l (?l s)) = s\<lparr>direction := Some (DIRECTIONS ! ((i + 9) mod 4))\<rparr>"
    unfolding l2 using assms(1) by (subst L [where j = "(i + 6) mod 4"]) (simp_all add: mod_simps add.commute)
  have l4: "?l (?l (?l (?l s))) = s\<lparr>direction := Some (DIRECTIONS ! ((i + 12) mod 4))\<rparr>"
    unfolding l3 using assms(1) by (subst L [where j = "(i + 9) mod 4"]) (simp_all add: mod_simps add.commute)
  have "(i + 4) mod 4 = i" "(i + 12) mod 4 = i" using assms(2) by presburger+
  with r4 l4 assms(3) have "?r (?r (?r (?r s))) = s" "?l (?l (?l (?l s))) = s"
    by (simp_all add: direction_same)
  with turn_right_step [OF assms] turn_left_step [OF assms] show ?thesis by simp
qed

text \<open>The instance: from north, left is west and right is east.\<close>

theorem turn_cyclic_witness:
  "turn (Robot MAP_SIZE\<lparr>placed := True, pos := Some (0, 0), direction := Some ''NORTH''\<rparr>)
     [(''direction'', ''LEFT'')] =
   returns (Robot MAP_SIZE\<lparr>placed := True, pos := Some (0, 0), direction := Some ''WEST''\<rparr>) \<and>
   turn (Robot MAP_SIZE\<lparr>placed := True, pos := Some (0, 0), direction := Some ''NORTH''\<rparr>)
     [(''direction'', ''RIGHT'')] =
   returns (Robot MAP_SIZE\<lparr>placed := True, pos := Some (0, 0), direction := Some ''EAST''\<rparr>)"
  using turn_cyclic [of "Robot MAP_SIZE\<lparr>placed := True, pos := Some (0, 0), direction := Some ''NORTH''\<rparr>" 0]
  by (simp add: DIRECTIONS_def Robot_def)

text \<open>
  Claim C7. The claim: a \<open>PLACE\<close> argument of three comma-separated parts whose first or
  second part is no integer fails with the typed error for a malformed argument. The
  code does not: \<open>int\<close> raises \<open>ValueError\<close>, which \<open>place\<close> does not catch, both when
  \<open>place\<close> is called and when the line goes through \<open>execute_command\<close>; the robot is as
  it was.
\<close>

theorem place_non_integer_value_error:
  "place (Robot MAP_SIZE) [(''action_details'', ''A,B,NORTH'')] = raises (Robot MAP_SIZE) ValueError
   \<and> execute_command (Robot MAP_SIZE) ''PLACE A,B,NORTH'' = raises (Robot MAP_SIZE) ValueError"
  by code_simp

text \<open>
  Claim C8. The claim: every input line ends in success, the termination signal, or a
  typed error; \<open>MOVE\<close> followed by more text is a typed error. The code does not: on a
  placed robot the line \<open>MOVE X\<close> passes \<open>action_details\<close> to \<open>move\<close>, which takes no
  keyword parameter, and the call is a \<open>TypeError\<close>.
\<close>

theorem move_with_argument_type_error:
  "raised (execute_command (after (execute_command (Robot MAP_SIZE) ''PLACE 0,0,NORTH'')) ''MOVE X'')
     = Some TypeError"
  by code_simp

text \<open>
  Claim C9. \<open>report\<close> leaves the robot as it was, so a second \<open>report\<close> does what the
  first did; \<open>move\<close> changes no field but \<open>pos\<close>; \<open>turn\<close> changes no field but
  \<open>direction\<close>. The same holds for the lines \<open>REPORT\<close>, \<open>MOVE\<close>, \<open>LEFT\<close> and \<open>RIGHT\<close>
  on a well-formed \<open>command_map\<close>.
\<close>

theorem frame_conditions:
  "after (report s kw) = s \<and>
   report (after (report s kw)) kw = report s kw \<and>
   after (move s kw) = s\<lparr>pos := pos (after (move s kw))\<rparr> \<and>
   after (turn s kw) = s\<lparr>direction := direction (after (turn s kw))\<rparr> \<and>
   (command_map_ok (command_map s) \<longrightarrow>
      after (execute_command s ''REPORT'') = s \<and>
      execute_command (after (execute_command s ''REPORT'')) ''REPORT'' = execute_command s ''REPORT'' \<and>
      after (execute_command s ''MOVE'') = s\<lparr>pos := pos (after (execute_command s ''MOVE''))\<rparr> \<and>
      after (execute_command s ''LEFT'') = s\<lparr>direction := direction (after (execute_command s ''LEFT''))\<rparr> \<and>
      after (execute_command s ''RIGHT'') = s\<lparr>direction := direction (after (execute_command s ''RIGHT''))\<rparr>)"
proof -
  have "after (execute_command s ''REPORT'') = s"
    "execute_command (after (execute_command s ''REPORT'')) ''REPORT'' = execute_command s ''REPORT''"
    "after (execute_command s ''MOVE'') = s\<lparr>pos := pos (after (execute_command s ''MOVE''))\<rparr>"
    "after (execute_command s ''LEFT'') = s\<lparr>direction := direction (after (execute_command s ''LEFT''))\<rparr>"
    "after (execute_command s ''RIGHT'') = s\<lparr>direction := direction (after (execute_command s ''RIGHT''))\<rparr>"
    if ok: "command_map_ok (command_map s)"
    using after_move [of s "[]"] after_turn [of s "[(''direction'', ''LEFT'')]"]
      after_turn [of s "[(''direction'', ''RIGHT'')]"]
    by (simp_all add: execute_REPORT [OF ok] execute_MOVE [OF ok] execute_LEFT [OF ok]
        execute_RIGHT [OF ok])
  moreover have "after (report s kw) = s" by simp
  moreover have "report (after (report s kw)) kw = report s kw" by simp
  moreover note after_move [of s kw] after_turn [of s kw]
  ultimately show ?thesis by blast
qed

text \<open>The instance: a robot at \<open>(2, 2)\<close> facing east.\<close>

theorem frame_conditions_witness:
  "command_map_ok (command_map (Robot MAP_SIZE\<lparr>placed := True, pos := Some (2, 2), direction := Some ''EAST''\<rparr>)) \<and>
   execute_command (Robot MAP_SIZE\<lparr>placed := True, pos := Some (2, 2), direction := Some ''EAST''\<rparr>) ''REPORT'' =
     \<lparr>after = Robot MAP_SIZE\<lparr>placed := True, pos := Some (2, 2), direction := Some ''EAST''\<rparr>,
      stdout = [''2, 2, EAST''], raised = None\<rparr> \<and>
   after (execute_command (Robot MAP_SIZE\<lparr>placed := True, pos := Some (2, 2), direction := Some ''EAST''\<rparr>) ''REPORT'')
     = Robot MAP_SIZE\<lparr>placed := True, pos := Some (2, 2), direction := Some ''EAST''\<rparr> \<and>
   pos (after (execute_command (Robot MAP_SIZE\<lparr>placed := True, pos := Some (2, 2), direction := Some ''EAST''\<rparr>) ''MOVE''))
     = Some (3, 2) \<and>
   after (execute_command (Robot MAP_SIZE\<lparr>placed := True, pos := Some (2, 2), direction := Some ''EAST''\<rparr>) ''MOVE'')
     = Robot MAP_SIZE\<lparr>placed := True, pos := Some (3, 2), direction := Some ''EAST''\<rparr>"
proof -
  let ?s = "Robot MAP_SIZE\<lparr>placed := True, pos := Some (2, 2), direction := Some ''EAST''\<rparr>"
  have ok: "command_map_ok (command_map ?s)" by code_simp
  have r: "execute_command ?s ''REPORT'' = \<lparr>after = ?s, stdout = [''2, 2, EAST''], raised = None\<rparr>"
    by code_simp
  have m: "pos (after (execute_command ?s ''MOVE'')) = Some (3, 2)" by code_simp
  from frame_conditions [of ?s "[]"] ok
  have "after (execute_command ?s ''REPORT'') = ?s"
    and "after (execute_command ?s ''MOVE'') = ?s\<lparr>pos := pos (after (execute_command ?s ''MOVE''))\<rparr>"
    by blast+
  with ok r m show ?thesis by simp
qed

text \<open>
  Claim C10. From a fresh robot on the 5 by 5 map, the lines \<open>PLACE 1,2,EAST\<close>, \<open>MOVE\<close>,
  \<open>MOVE\<close>, \<open>LEFT\<close>, \<open>MOVE\<close>, \<open>REPORT\<close> print exactly one line, \<open>3, 3, NORTH\<close>, and
  raise nothing.
\<close>

theorem end_to_end:
  "stdout (run_commands (Robot MAP_SIZE)
     [''PLACE 1,2,EAST'', ''MOVE'', ''MOVE'', ''LEFT'', ''MOVE'', ''REPORT'']) = [''3, 3, NORTH'']
   \<and> raised (run_commands (Robot MAP_SIZE)
     [''PLACE 1,2,EAST'', ''MOVE'', ''MOVE'', ''LEFT'', ''MOVE'', ''REPORT'']) = None"
  by code_simp

end
